theory Spec2Isabelle
  imports Complex_Main
begin

section \<open>The treasure hunt game (game.js)\<close>

text \<open>
  The game is one script over five module-level variables and one constant. The
  embedding keeps them in one record that every function receives and returns;
  \<open>console.log\<close> output is returned as the list of logged lines, in order. Coordinates
  are JavaScript numbers that only ever hold integers here (a floor plus one, or a
  neighbour of such a value), so they are modelled as \<open>int\<close>. An array slot that holds
  either a point or \<open>undefined\<close> is a \<open>point option\<close>.
\<close>

subsection \<open>Points\<close>

record point =
  x :: int
  y :: int

definition toPoint :: "int \<Rightarrow> int \<Rightarrow> point" where
  "toPoint a b = \<lparr>x = a, y = b\<rparr>"

text \<open>Decimal rendering of an integer, as a template literal renders a number.\<close>

fun showNat :: "nat \<Rightarrow> string" where
  "showNat n =
     (if n < 10 then [''0123456789'' ! n]
      else showNat (n div 10) @ [''0123456789'' ! (n mod 10)])"

declare showNat.simps [simp del]

definition showInt :: "int \<Rightarrow> string" where
  "showInt i = (if i < 0 then CHR ''-'' # showNat (nat (- i)) else showNat (nat i))"

text \<open>The \<open>toString\<close> member of a point object.\<close>

definition toString :: "point \<Rightarrow> string" where
  "toString p = ''('' @ showInt (x p) @ '', '' @ showInt (y p) @ '')''"

text \<open>
  \<open>isEqualPoint\<close>: \<open>!p\<close> holds exactly for \<open>undefined\<close>, since every point object is
  truthy.
\<close>

definition isEqualPoint :: "point option \<Rightarrow> point option \<Rightarrow> bool" where
  "isEqualPoint p1 p2 =
     (if p1 = None \<and> p2 = None then True
      else if p1 = None \<or> p2 = None then False
      else x (the p1) = x (the p2) \<and> y (the p1) = y (the p2))"

text \<open>
  \<open>findPoint\<close>: the \<open>for\<close> loop over the indices, started at \<open>i = 0\<close>; \<open>None\<close> is the
  \<open>undefined\<close> returned when no entry matches.
\<close>

function findPoint_loop :: "point option list \<Rightarrow> point option \<Rightarrow> nat \<Rightarrow> nat option" where
  "findPoint_loop list pt i =
     (if i < length list
      then (if isEqualPoint (list ! i) pt then Some i else findPoint_loop list pt (i + 1))
      else None)"
  by pat_completeness auto
termination
  by (relation "measure (\<lambda>(list, pt, i). length list - i)") auto

declare findPoint_loop.simps [simp del]

definition findPoint :: "point option list \<Rightarrow> point option \<Rightarrow> nat option" where
  "findPoint list pt = findPoint_loop list pt 0"

definition isAdjacent :: "point \<Rightarrow> point \<Rightarrow> bool" where
  "isAdjacent p1 p2 =
     (if y p2 < y p1 - 1 \<or> y p2 > y p1 + 1 then False
      else if x p2 < x p1 - 1 \<or> x p2 > x p1 + 1 then False
      else True)"

subsection \<open>The game state\<close>

record game =
  GRID_SIZE :: nat
  treasures :: "string list"
  treasureLocations :: "point option list"
  foundTreasureCount :: int
  monsterLocation :: point
  playerLocation :: point

text \<open>The values the script gives its variables before \<open>initGame\<close> runs.\<close>

definition globals :: game where
  "globals =
     \<lparr>GRID_SIZE = 5,
      treasures = [''gem'', ''ruby'', ''diamond'', ''coin'', ''emerald'', ''goblet''],
      treasureLocations = [],
      foundTreasureCount = 0,
      monsterLocation = toPoint 0 0,
      playerLocation = toPoint 0 0\<rparr>"

subsection \<open>Placement\<close>

text \<open>
  \<open>Math.random()\<close> is the environment: the \<open>k\<close>-th call of a run returns \<open>rnd k\<close>, a
  number in \<open>[0, 1)\<close>, and every function that draws takes the number of calls made so
  far and returns it advanced. The two draws of one candidate are evaluated left to
  right: first \<open>x\<close>, then \<open>y\<close>. Draws are real numbers and the product with the grid
  size is exact; the rounding of the double product is not modelled.
\<close>

definition unit_draws :: "(nat \<Rightarrow> real) \<Rightarrow> bool" where
  "unit_draws rnd = (\<forall>k. 0 \<le> rnd k \<and> rnd k < 1)"

definition randomPoint :: "(nat \<Rightarrow> real) \<Rightarrow> nat \<Rightarrow> nat \<Rightarrow> point" where
  "randomPoint rnd g k =
     toPoint (\<lfloor>rnd k * real g\<rfloor> + 1) (\<lfloor>rnd (k + 1) * real g\<rfloor> + 1)"

text \<open>
  \<open>chooseUnoccupiedLocation\<close>: the \<open>do \<dots> while\<close> loop has no bound on its retries,
  so the function is partial: \<open>None\<close> is a loop that never ends. On return it gives the
  chosen point, the list with the point pushed, and the advanced draw counter.
\<close>

partial_function (option) chooseUnoccupiedLocation ::
  "(nat \<Rightarrow> real) \<Rightarrow> nat \<Rightarrow> nat \<Rightarrow> point list \<Rightarrow> (point \<times> point list \<times> nat) option" where
  "chooseUnoccupiedLocation rnd g k usedLocations =
     (let location = randomPoint rnd g k
      in if findPoint (map Some usedLocations) (Some location) \<noteq> None
         then chooseUnoccupiedLocation rnd g (k + 2) usedLocations
         else Some (location, usedLocations @ [location], k + 2))"

declare chooseUnoccupiedLocation.simps [code]

text \<open>The \<open>for\<close> loop of \<open>initGame\<close> over the treasure names.\<close>

function initGame_loop ::
  "(nat \<Rightarrow> real) \<Rightarrow> game \<Rightarrow> nat \<Rightarrow> point list \<Rightarrow> nat \<Rightarrow> (game \<times> point list \<times> nat) option" where
  "initGame_loop rnd s i usedLocations k =
     (if i < length (treasures s)
      then (case chooseUnoccupiedLocation rnd (GRID_SIZE s) k usedLocations of
              None \<Rightarrow> None
            | Some (location, usedLocations', k') \<Rightarrow>
                initGame_loop rnd
                  (s\<lparr>treasureLocations := treasureLocations s @ [Some location]\<rparr>)
                  (i + 1) usedLocations' k')
      else Some (s, usedLocations, k))"
  by pat_completeness auto
termination
  by (relation "measure (\<lambda>(rnd, s, i, usedLocations, k). length (treasures s) - i)") auto

declare initGame_loop.simps [simp del]

definition initGame :: "(nat \<Rightarrow> real) \<Rightarrow> nat \<Rightarrow> game \<Rightarrow> (game \<times> nat) option" where
  "initGame rnd k s =
     (let s1 = s\<lparr>treasureLocations := [], foundTreasureCount := 0\<rparr>;
          s2 = s1\<lparr>playerLocation := toPoint 1 1\<rparr>;
          usedLocations = [playerLocation s2]
      in case chooseUnoccupiedLocation rnd (GRID_SIZE s2) k usedLocations of
           None \<Rightarrow> None
         | Some (location, usedLocations', k') \<Rightarrow>
             (case initGame_loop rnd (s2\<lparr>monsterLocation := location\<rparr>) 0 usedLocations' k' of
                None \<Rightarrow> None
              | Some (s3, _, k'') \<Rightarrow> Some (s3, k'')))"

subsection \<open>Entering a location\<close>

text \<open>
  \<open>treasures[treasure]\<close> inside a template literal: an index past the end of the array
  reads \<open>undefined\<close>, which renders as that word.
\<close>

definition nameAt :: "string list \<Rightarrow> nat \<Rightarrow> string" where
  "nameAt names i = (if i < length names then names ! i else ''undefined'')"

text \<open>
  \<open>enterLocation\<close> returns the \<open>true\<close>/\<open>false\<close> of the source, the lines it logged and
  the state it leaves.
\<close>

definition enterLocation :: "game \<Rightarrow> point \<Rightarrow> bool \<times> string list \<times> game" where
  "enterLocation s location =
     (let s1 = s\<lparr>playerLocation := location\<rparr>;
          out1 = [''\<newline>You are now in location '' @ toString location]
      in if isEqualPoint (Some (monsterLocation s1)) (Some (playerLocation s1))
         then (False, out1 @ [''Oh no!!  You've been eaten by a hungry monster!''], s1)
         else
           let (won, out2, s2) =
             (case findPoint (treasureLocations s1) (Some (playerLocation s1)) of
                None \<Rightarrow> (False, out1, s1)
              | Some treasure \<Rightarrow>
                  let outF = out1 @ [''You found the '' @ nameAt (treasures s1) treasure @ ''!''];
                      sF = s1\<lparr>treasureLocations := (treasureLocations s1)[treasure := None]\<rparr>;
                      sC = sF\<lparr>foundTreasureCount := foundTreasureCount sF + 1\<rparr>
                  in if foundTreasureCount sC = int (length (treasures sC))
                     then (True,
                           outF @ [''You found all '' @ showInt (foundTreasureCount sC)
                                     @ '' treasures!  You win!!''],
                           sC)
                     else
                       let remaining = int (length (treasures sC)) - foundTreasureCount sC
                       in (False,
                           outF @ [''You have '' @ showInt remaining @ '' more treasure''
                                     @ (if remaining > 1 then ''s'' else '''') @ '' to find!''],
                           sC))
           in if won then (False, out2, s2)
              else if isAdjacent (monsterLocation s2) (playerLocation s2)
              then (True, out2 @ [''You can hear a growling sound nearby!''], s2)
              else (True, out2, s2))"

subsection \<open>Commands\<close>

text \<open>
  A command line is a string of code units below 256. \<open>toLowerCase\<close> maps the capital
  letters of that range (\<open>A\<close>--\<open>Z\<close>, and \<open>0xC0\<close>--\<open>0xDE\<close> without the multiplication sign
  \<open>0xD7\<close>) to the code unit 32 above; \<open>trim\<close> strips the white space and line
  terminators of that range from both ends.
\<close>

definition toLowerChar :: "char \<Rightarrow> char" where
  "toLowerChar c =
     (let n = (of_char c :: nat)
      in if (65 \<le> n \<and> n \<le> 90) \<or> (192 \<le> n \<and> n \<le> 222 \<and> n \<noteq> 215)
         then char_of (n + 32) else c)"

definition toLowerCase :: "string \<Rightarrow> string" where
  "toLowerCase s = map toLowerChar s"

definition isWhiteSpace :: "char \<Rightarrow> bool" where
  "isWhiteSpace c =
     (c \<in> set [CHR 0x09, CHR 0x0A, CHR 0x0B, CHR 0x0C, CHR 0x0D, CHR 0x20, CHR 0xA0])"

definition trim :: "string \<Rightarrow> string" where
  "trim s = rev (dropWhile isWhiteSpace (rev (dropWhile isWhiteSpace s)))"

text \<open>Lines 196--198: the command as the dispatch sees it.\<close>

definition normalizeCommand :: "string \<Rightarrow> string" where
  "normalizeCommand command = (if command \<noteq> [] then trim (toLowerCase command) else command)"

definition processCommand :: "game \<Rightarrow> string \<Rightarrow> bool \<times> string list \<times> game" where
  "processCommand s command0 =
     (let command = normalizeCommand command0;
          move = (\<lambda>newLocation.
            case newLocation of
              None \<Rightarrow> (True, [''You can't move in that direction!''], s)
            | Some l \<Rightarrow> enterLocation s l)
      in if command = [] \<or> length command = 0 then (True, [''What??''], s)
         else if command = ''q'' then (False, [], s)
         else if command = ''l'' then
           move (if x (playerLocation s) > 1
                 then Some (toPoint (x (playerLocation s) - 1) (y (playerLocation s)))
                 else None)
         else if command = ''r'' then
           move (if x (playerLocation s) < int (GRID_SIZE s)
                 then Some (toPoint (x (playerLocation s) + 1) (y (playerLocation s)))
                 else None)
         else if command = ''u'' then
           move (if y (playerLocation s) > 1
                 then Some (toPoint (x (playerLocation s)) (y (playerLocation s) - 1))
                 else None)
         else if command = ''d'' then
           move (if y (playerLocation s) < int (GRID_SIZE s)
                 then Some (toPoint (x (playerLocation s)) (y (playerLocation s) + 1))
                 else None)
         else (True, [''I don't know what you mean''], s))"

section \<open>Predicates of the specification\<close>

text \<open>A point lies on the board of side \<open>g\<close>.\<close>

definition in_grid :: "nat \<Rightarrow> point \<Rightarrow> bool" where
  "in_grid g p = (1 \<le> x p \<and> x p \<le> int g \<and> 1 \<le> y p \<and> y p \<le> int g)"

text \<open>
  The specification keeps each treasure's name and location in one entry; the script
  keeps two arrays. They describe the same sequence of entries when they have the same
  length.
\<close>

definition paired :: "game \<Rightarrow> bool" where
  "paired s = (length (treasureLocations s) = length (treasures s))"

text \<open>
  The count of found treasures is the number of cleared entries and lies between 0 and
  the number of treasures.
\<close>

definition foundCount_ok :: "game \<Rightarrow> bool" where
  "foundCount_ok s =
     (foundTreasureCount s = int (count_list (treasureLocations s) None)
      \<and> 0 \<le> foundTreasureCount s
      \<and> foundTreasureCount s \<le> int (length (treasures s)))"

text \<open>The locations of the treasures that are still on the board, in order.\<close>

fun present :: "point option list \<Rightarrow> point list" where
  "present [] = []"
| "present (None # es) = present es"
| "present (Some p # es) = p # present es"

text \<open>
  No treasure lies where the monster is and no two treasures share a location: the
  placement that \<open>initGame\<close> produces and every later call keeps.
\<close>

definition placed_apart :: "game \<Rightarrow> bool" where
  "placed_apart s =
     (monsterLocation s \<notin> set (present (treasureLocations s))
      \<and> distinct (present (treasureLocations s)))"

text \<open>The state after a sequence of calls to \<open>enterLocation\<close>.\<close>

fun enterLocations :: "game \<Rightarrow> point list \<Rightarrow> game" where
  "enterLocations s [] = s"
| "enterLocations s (location # rest) = enterLocations (snd (snd (enterLocation s location))) rest"

text \<open>
  A fair source of draws: from position \<open>k\<close> on, at every later candidate position,
  each point of the board is still to come. A sequence of independent uniform draws is
  fair with probability 1; a constant one is not.
\<close>

definition fair_draws :: "(nat \<Rightarrow> real) \<Rightarrow> nat \<Rightarrow> nat \<Rightarrow> bool" where
  "fair_draws rnd g k =
     (\<forall>m p. in_grid g p \<longrightarrow> (\<exists>j. randomPoint rnd g (k + 2 * (m + j)) = p))"

section \<open>Example states\<close>

text \<open>A state in which a treasure lies where the monster is.\<close>

definition death_state :: game where
  "death_state = globals\<lparr>monsterLocation := toPoint 1 2, playerLocation := toPoint 1 1,
     treasureLocations := [Some (toPoint 1 2), Some (toPoint 3 3)]\<rparr>"

text \<open>
  A source of draws that walks through the 25 points of the 5 by 5 board row by row,
  again and again.
\<close>

definition cycling_draws :: "nat \<Rightarrow> real" where
  "cycling_draws j =
     (real (if even j then (j div 2) mod 5 else (j div 2) div 5 mod 5) + 1 / 2) / 5"

text \<open>The state \<open>initGame\<close> leaves on those draws, from the script's initial values.\<close>

definition start_state :: game where
  "start_state = globals\<lparr>
     treasureLocations := [Some (toPoint 3 1), Some (toPoint 4 1), Some (toPoint 5 1),
                           Some (toPoint 1 2), Some (toPoint 2 2), Some (toPoint 3 2)],
     monsterLocation := toPoint 2 1,
     playerLocation := toPoint 1 1\<rparr>"

text \<open>That state after the player has moved down onto the coin.\<close>

definition found_state :: game where
  "found_state = start_state\<lparr>
     playerLocation := toPoint 1 2,
     treasureLocations := [Some (toPoint 3 1), Some (toPoint 4 1), Some (toPoint 5 1),
                           None, Some (toPoint 2 2), Some (toPoint 3 2)],
     foundTreasureCount := 1\<rparr>"

text \<open>A state with one treasure left, and the state after it has been collected.\<close>

definition last_state :: game where
  "last_state = globals\<lparr>
     treasureLocations := [None, None, None, None, None, Some (toPoint 1 2)],
     foundTreasureCount := 5,
     monsterLocation := toPoint 3 3,
     playerLocation := toPoint 1 1\<rparr>"

definition won_state :: game where
  "won_state = last_state\<lparr>
     playerLocation := toPoint 1 2,
     treasureLocations := [None, None, None, None, None, None],
     foundTreasureCount := 6\<rparr>"


section \<open>Properties\<close>

subsection \<open>Point equality and search\<close>

lemma isEqualPoint_iff: "isEqualPoint p1 p2 \<longleftrightarrow> p1 = p2"
  by (cases p1; cases p2) (auto simp: isEqualPoint_def)

lemma findPoint_loop_None:
  "findPoint_loop list pt i = None \<longleftrightarrow> pt \<notin> set (drop i list)"
proof (induction list pt i rule: findPoint_loop.induct)
  case (1 list pt i)
  show ?case
  proof (cases "i < length list")
    case True
    then have d: "drop i list = list ! i # drop (i + 1) list"
      by (simp add: Cons_nth_drop_Suc)
    show ?thesis
      using True 1 by (subst findPoint_loop.simps) (auto simp: d isEqualPoint_iff)
  next
    case False
    then show ?thesis by (subst findPoint_loop.simps) simp
  qed
qed

lemma findPoint_loop_Some:
  "findPoint_loop list pt i = Some j \<Longrightarrow>
     i \<le> j \<and> j < length list \<and> list ! j = pt \<and> pt \<notin> set (take (j - i) (drop i list))"
proof (induction list pt i rule: findPoint_loop.induct)
  case (1 list pt i)
  show ?case
  proof (cases "i < length list")
    case True
    note lt = this
    show ?thesis
    proof (cases "isEqualPoint (list ! i) pt")
      case True
      with lt 1(2) show ?thesis
        by (subst (asm) findPoint_loop.simps) (simp add: isEqualPoint_iff)
    next
      case False
      with lt 1(2) have rec: "findPoint_loop list pt (i + 1) = Some j"
        by (subst (asm) findPoint_loop.simps) simp
      from 1(1)[OF lt False rec]
      have ih: "i + 1 \<le> j" "j < length list" "list ! j = pt"
        "pt \<notin> set (take (j - (i + 1)) (drop (i + 1) list))" by auto
      have d: "drop i list = list ! i # drop (i + 1) list"
        using lt by (simp add: Cons_nth_drop_Suc)
      have "j - i = Suc (j - (i + 1))" using ih(1) by simp
      then have "take (j - i) (drop i list) = list ! i # take (j - (i + 1)) (drop (i + 1) list)"
        by (simp add: d)
      with ih False show ?thesis by (auto simp: isEqualPoint_iff)
    qed
  next
    case False
    with 1(2) show ?thesis by (subst (asm) findPoint_loop.simps) simp
  qed
qed

lemma findPoint_None: "findPoint list pt = None \<longleftrightarrow> pt \<notin> set list"
  by (simp add: findPoint_def findPoint_loop_None)

lemma findPoint_Some:
  "findPoint list pt = Some j \<Longrightarrow> j < length list \<and> list ! j = pt \<and> pt \<notin> set (take j list)"
  using findPoint_loop_Some[of list pt 0 j] by (simp add: findPoint_def)

subsection \<open>The effect of entering a location\<close>

lemma enterLocation_state:
  "snd (snd (enterLocation s location)) =
     (if location = monsterLocation s then s\<lparr>playerLocation := location\<rparr>
      else case findPoint (treasureLocations s) (Some location) of
             None \<Rightarrow> s\<lparr>playerLocation := location\<rparr>
           | Some i \<Rightarrow> s\<lparr>playerLocation := location,
                          treasureLocations := (treasureLocations s)[i := None],
                          foundTreasureCount := foundTreasureCount s + 1\<rparr>)"
  by (auto simp: enterLocation_def isEqualPoint_iff Let_def split: option.splits)

lemma findPoint_Some_mem: "findPoint list pt = Some j \<Longrightarrow> pt \<in> set list"
  using findPoint_None[of list pt] by auto

lemma set_present: "set (present es) = {p. Some p \<in> set es}"
  by (induction es rule: present.induct) auto

lemma distinct_present_nth:
  "distinct (present es) \<Longrightarrow> i < length es \<Longrightarrow> j < length es \<Longrightarrow>
     es ! i = Some p \<Longrightarrow> es ! j = Some p \<Longrightarrow> i = j"
proof (induction es arbitrary: i j rule: present.induct)
  case 1
  then show ?case by simp
next
  case (2 es)
  then show ?case by (cases i; cases j) auto
next
  case (3 q es)
  show ?case
  proof (cases i)
    case 0
    note i0 = this
    show ?thesis
    proof (cases j)
      case 0
      with i0 show ?thesis by simp
    next
      case (Suc j')
      with i0 "3.prems" have "q = p" "Some p \<in> set es" by (auto simp: in_set_conv_nth)
      with "3.prems"(1) show ?thesis by (simp add: set_present)
    qed
  next
    case (Suc i')
    note iS = this
    show ?thesis
    proof (cases j)
      case 0
      with iS "3.prems" have "q = p" "Some p \<in> set es" by (auto simp: in_set_conv_nth)
      with "3.prems"(1) show ?thesis by (simp add: set_present)
    next
      case (Suc j')
      with iS "3.prems" "3.IH"[of i' j'] show ?thesis by simp
    qed
  qed
qed

lemma present_update_None:
  "set (present (es[i := None])) \<subseteq> set (present es)
   \<and> (distinct (present es) \<longrightarrow> distinct (present (es[i := None])))"
proof (induction es arbitrary: i rule: present.induct)
  case 1
  then show ?case by simp
next
  case (2 es)
  show ?case using 2[of "i - 1"] by (cases i) auto
next
  case (3 q es)
  show ?case using 3[of "i - 1"] by (cases i) auto
qed

lemma cleared_absent:
  assumes "distinct (present es)" "i < length es" "es ! i = Some p"
  shows "p \<notin> set (present (es[i := None]))"
proof
  assume "p \<in> set (present (es[i := None]))"
  then have "Some p \<in> set (es[i := None])" by (simp add: set_present)
  then obtain j where j: "j < length es" "es[i := None] ! j = Some p"
    by (auto simp: in_set_conv_nth)
  then have ne: "j \<noteq> i" using assms(2) by auto
  with j have "es ! j = Some p" by simp
  with distinct_present_nth[OF assms(1) assms(2) j(1) assms(3)] ne show False by simp
qed

lemma enterLocation_treasureLocations:
  "treasureLocations (snd (snd (enterLocation s location))) = treasureLocations s
   \<and> (location = monsterLocation s \<or> Some location \<notin> set (treasureLocations s))
   \<or> (\<exists>i. i < length (treasureLocations s) \<and> treasureLocations s ! i = Some location
        \<and> location \<noteq> monsterLocation s
        \<and> treasureLocations (snd (snd (enterLocation s location)))
            = (treasureLocations s)[i := None])"
  by (auto simp: enterLocation_state findPoint_None split: option.splits dest: findPoint_Some)

lemma enterLocation_monster:
  "monsterLocation (snd (snd (enterLocation s location))) = monsterLocation s"
  by (auto simp: enterLocation_state split: option.splits)

lemma enterLocation_placed_apart:
  assumes "placed_apart s"
  shows "placed_apart (snd (snd (enterLocation s location)))
         \<and> location \<notin> set (present (treasureLocations (snd (snd (enterLocation s location)))))
         \<and> set (present (treasureLocations (snd (snd (enterLocation s location)))))
             \<subseteq> set (present (treasureLocations s))"
proof -
  let ?s' = "snd (snd (enterLocation s location))"
  from enterLocation_treasureLocations[of s location]
  consider (same) "treasureLocations ?s' = treasureLocations s"
      "location = monsterLocation s \<or> Some location \<notin> set (treasureLocations s)"
    | (found) i where "i < length (treasureLocations s)" "treasureLocations s ! i = Some location"
      "treasureLocations ?s' = (treasureLocations s)[i := None]"
    by blast
  then show ?thesis
  proof cases
    case same
    with assms show ?thesis
      by (auto simp: placed_apart_def enterLocation_monster set_present)
  next
    case found
    from assms have d: "distinct (present (treasureLocations s))"
      by (simp add: placed_apart_def)
    from cleared_absent[OF d found(1,2)] present_update_None[of "treasureLocations s" i] assms
    show ?thesis
      by (auto simp: placed_apart_def enterLocation_monster found(3))
  qed
qed

lemma enterLocations_absent:
  "placed_apart s \<Longrightarrow> p \<notin> set (present (treasureLocations s)) \<Longrightarrow>
     placed_apart (enterLocations s ls) \<and> p \<notin> set (present (treasureLocations (enterLocations s ls)))"
proof (induction ls arbitrary: s)
  case Nil
  then show ?case by simp
next
  case (Cons l ls)
  from enterLocation_placed_apart[OF Cons.prems(1), of l] Cons.prems(2)
  have "placed_apart (snd (snd (enterLocation s l)))"
    "p \<notin> set (present (treasureLocations (snd (snd (enterLocation s l)))))" by auto
  from Cons.IH[OF this] show ?case by simp
qed

lemma enterLocations_append:
  "enterLocations s (ls @ ms) = enterLocations (enterLocations s ls) ms"
  by (induction ls arbitrary: s) auto

lemma enterLocation_count:
  "foundTreasureCount (snd (snd (enterLocation s location))) =
     (if location \<noteq> monsterLocation s \<and> Some location \<in> set (treasureLocations s)
      then foundTreasureCount s + 1 else foundTreasureCount s)"
  by (auto simp: enterLocation_state findPoint_None split: option.splits dest: findPoint_Some_mem)

subsection \<open>Commands\<close>

lemma toLowerChar_whiteSpace: "isWhiteSpace c \<Longrightarrow> toLowerChar c = c"
  by (auto simp: isWhiteSpace_def toLowerChar_def)

lemma normalizeCommand_whiteSpace:
  assumes "list_all isWhiteSpace command"
  shows "normalizeCommand command = []"
proof -
  have all: "\<forall>c \<in> set command. isWhiteSpace c"
    using assms by (simp add: list_all_iff)
  then have lc: "toLowerCase command = command"
    unfolding toLowerCase_def by (intro map_idI) (simp add: toLowerChar_whiteSpace)
  have dw: "dropWhile isWhiteSpace command = []"
    using all by (simp add: dropWhile_eq_Nil_conv)
  show ?thesis
    unfolding normalizeCommand_def trim_def lc dw by simp
qed

lemma processCommand_cases:
  "snd (snd (processCommand s command)) = s
   \<or> x (playerLocation s) > 1
       \<and> processCommand s command
           = enterLocation s (toPoint (x (playerLocation s) - 1) (y (playerLocation s)))
   \<or> x (playerLocation s) < int (GRID_SIZE s)
       \<and> processCommand s command
           = enterLocation s (toPoint (x (playerLocation s) + 1) (y (playerLocation s)))
   \<or> y (playerLocation s) > 1
       \<and> processCommand s command
           = enterLocation s (toPoint (x (playerLocation s)) (y (playerLocation s) - 1))
   \<or> y (playerLocation s) < int (GRID_SIZE s)
       \<and> processCommand s command
           = enterLocation s (toPoint (x (playerLocation s)) (y (playerLocation s) + 1))"
  by (simp add: processCommand_def Let_def)

lemma enterLocation_player: "playerLocation (snd (snd (enterLocation s l))) = l"
  by (auto simp: enterLocation_state split: option.splits)

lemma enterLocation_GRID_SIZE: "GRID_SIZE (snd (snd (enterLocation s l))) = GRID_SIZE s"
  by (auto simp: enterLocation_state split: option.splits)

subsection \<open>The count of found treasures\<close>

lemma count_list_update_None:
  "i < length es \<Longrightarrow> es ! i = Some p \<Longrightarrow>
     count_list (es[i := None]) None = Suc (count_list es None)"
proof (induction es arbitrary: i)
  case Nil
  then show ?case by simp
next
  case (Cons e es)
  then show ?case by (cases i) auto
qed

lemma count_list_None_less:
  assumes "i < length es" "es ! i = Some p"
  shows "count_list es None < length es"
proof -
  have "Suc (count_list es None) = count_list (es[i := None]) None"
    using assms by (simp add: count_list_update_None)
  also have "\<dots> \<le> length (es[i := None])"
    by (rule count_le_length)
  finally show ?thesis by simp
qed

lemma enterLocation_foundCount_ok:
  assumes "paired s" "foundCount_ok s"
  shows "paired (snd (snd (enterLocation s l))) \<and> foundCount_ok (snd (snd (enterLocation s l)))"
proof (cases "l \<noteq> monsterLocation s \<and> findPoint (treasureLocations s) (Some l) \<noteq> None")
  case False
  then have "snd (snd (enterLocation s l)) = s\<lparr>playerLocation := l\<rparr>"
    by (auto simp: enterLocation_state)
  with assms show ?thesis
    by (simp add: paired_def foundCount_ok_def)
next
  case True
  then obtain i where i: "findPoint (treasureLocations s) (Some l) = Some i" by auto
  from findPoint_Some[OF i] have lt: "i < length (treasureLocations s)"
    and at: "treasureLocations s ! i = Some l" by auto
  have st: "snd (snd (enterLocation s l)) =
      s\<lparr>playerLocation := l, treasureLocations := (treasureLocations s)[i := None],
        foundTreasureCount := foundTreasureCount s + 1\<rparr>"
    using True i by (simp add: enterLocation_state)
  from count_list_None_less[OF lt at] assms(1)
  have "int (count_list (treasureLocations s) None) + 1 \<le> int (length (treasures s))"
    by (simp add: paired_def)
  with assms show ?thesis
    by (simp add: st paired_def foundCount_ok_def count_list_update_None[OF lt at])
qed

lemma processCommand_foundCount_ok:
  assumes "paired s" "foundCount_ok s"
  shows "paired (snd (snd (processCommand s c))) \<and> foundCount_ok (snd (snd (processCommand s c)))"
  using processCommand_cases[of s c] enterLocation_foundCount_ok[OF assms] assms by auto

subsection \<open>Choosing an unoccupied location\<close>

text \<open>
  What the loop returns when it returns, that it returns as soon as a candidate is
  free, and that it never returns when the board is full.
\<close>

lemma findPoint_used: "findPoint (map Some used) (Some p) \<noteq> None \<longleftrightarrow> p \<in> set used"
  by (auto simp: findPoint_None)

lemma randomPoint_in_grid:
  assumes "unit_draws rnd" "0 < g"
  shows "in_grid g (randomPoint rnd g k)"
proof -
  have bounds: "0 \<le> \<lfloor>rnd i * real g\<rfloor> \<and> \<lfloor>rnd i * real g\<rfloor> + 1 \<le> int g" for i
  proof -
    from assms(1) have r: "0 \<le> rnd i" "rnd i < 1" by (auto simp: unit_draws_def)
    have lo: "0 \<le> rnd i * real g" using r(1) by simp
    have "rnd i * real g < 1 * real g"
      using r(2) assms(2) by (intro mult_strict_right_mono) auto
    then have hi: "rnd i * real g < real_of_int (int g)" by simp
    from lo have "0 \<le> \<lfloor>rnd i * real g\<rfloor>" by simp
    moreover from hi have "\<lfloor>rnd i * real g\<rfloor> < int g" by (simp only: floor_less_iff)
    ultimately show ?thesis by simp
  qed
  from bounds[of k] bounds[of "k + 1"] show ?thesis
    by (simp add: in_grid_def randomPoint_def toPoint_def)
qed

lemma chooseUnoccupiedLocation_Some:
  "chooseUnoccupiedLocation rnd g k used = Some r \<Longrightarrow>
     \<exists>j. r = (randomPoint rnd g (k + 2 * j), used @ [randomPoint rnd g (k + 2 * j)], k + 2 * j + 2)
         \<and> randomPoint rnd g (k + 2 * j) \<notin> set used"
proof (induction rule: chooseUnoccupiedLocation.raw_induct[rotated 1, consumes 1])
  case (1 loop rnd g k used r)
  show ?case
  proof (cases "randomPoint rnd g k \<in> set used")
    case True
    with 1(2) have "loop rnd g (k + 2) used = Some r"
      unfolding Let_def findPoint_used by simp
    from 1(1)[OF this] obtain j where
      "r = (randomPoint rnd g (k + 2 + 2 * j), used @ [randomPoint rnd g (k + 2 + 2 * j)],
            k + 2 + 2 * j + 2)"
      "randomPoint rnd g (k + 2 + 2 * j) \<notin> set used" by blast
    then show ?thesis
      by (intro exI[of _ "Suc j"]) (simp add: add.assoc)
  next
    case False
    from 1(2) have "r = (randomPoint rnd g k, used @ [randomPoint rnd g k], k + 2)"
      unfolding Let_def findPoint_used using False by simp
    with False show ?thesis
      by (intro exI[of _ 0]) simp
  qed
qed

lemma chooseUnoccupiedLocation_step:
  "chooseUnoccupiedLocation rnd g k used =
     (if randomPoint rnd g k \<in> set used then chooseUnoccupiedLocation rnd g (k + 2) used
      else Some (randomPoint rnd g k, used @ [randomPoint rnd g k], k + 2))"
  by (subst chooseUnoccupiedLocation.simps) (simp only: Let_def findPoint_used)

lemma chooseUnoccupiedLocation_returns_at:
  "randomPoint rnd g (k + 2 * j) \<notin> set used \<Longrightarrow>
     \<exists>i\<le>j. chooseUnoccupiedLocation rnd g k used =
       Some (randomPoint rnd g (k + 2 * i), used @ [randomPoint rnd g (k + 2 * i)], k + 2 * i + 2)
       \<and> randomPoint rnd g (k + 2 * i) \<notin> set used"
proof (induction j arbitrary: k)
  case 0
  then show ?case
    by (subst chooseUnoccupiedLocation_step) simp
next
  case (Suc j)
  show ?case
  proof (cases "randomPoint rnd g k \<in> set used")
    case False
    then have "chooseUnoccupiedLocation rnd g k used =
        Some (randomPoint rnd g k, used @ [randomPoint rnd g k], k + 2)"
      by (subst chooseUnoccupiedLocation_step) simp
    with False show ?thesis
      by (intro exI[of _ 0]) simp
  next
    case True
    have "randomPoint rnd g (k + 2 + 2 * j) \<notin> set used"
      using Suc.prems by (simp add: add.assoc)
    from Suc.IH[OF this] obtain i where i: "i \<le> j"
      "chooseUnoccupiedLocation rnd g (k + 2) used =
        Some (randomPoint rnd g (k + 2 + 2 * i), used @ [randomPoint rnd g (k + 2 + 2 * i)],
              k + 2 + 2 * i + 2)"
      "randomPoint rnd g (k + 2 + 2 * i) \<notin> set used" by blast
    have "chooseUnoccupiedLocation rnd g k used = chooseUnoccupiedLocation rnd g (k + 2) used"
      using True by (subst chooseUnoccupiedLocation_step) simp
    with i show ?thesis
      by (intro exI[of _ "Suc i"]) (simp add: add.assoc)
  qed
qed


lemma point_eq_toPoint: "toPoint (x p) (y p) = p"
  by (simp add: toPoint_def)

lemma grid_image:
  "{p. in_grid g p} = (\<lambda>(a, b). toPoint a b) ` ({1..int g} \<times> {1..int g})"
proof (intro set_eqI iffI)
  fix p assume "p \<in> {p. in_grid g p}"
  then have "(x p, y p) \<in> {1..int g} \<times> {1..int g}"
    by (simp add: in_grid_def)
  then have "(\<lambda>(a, b). toPoint a b) (x p, y p) \<in> (\<lambda>(a, b). toPoint a b) ` ({1..int g} \<times> {1..int g})"
    by (rule imageI)
  then show "p \<in> (\<lambda>(a, b). toPoint a b) ` ({1..int g} \<times> {1..int g})"
    by (simp add: point_eq_toPoint)
next
  fix p assume "p \<in> (\<lambda>(a, b). toPoint a b) ` ({1..int g} \<times> {1..int g})"
  then show "p \<in> {p. in_grid g p}"
    by (auto simp: in_grid_def toPoint_def)
qed

lemma grid_card: "finite {p. in_grid g p} \<and> card {p. in_grid g p} = g * g"
proof -
  have inj: "inj_on (\<lambda>(a, b). toPoint a b) ({1..int g} \<times> {1..int g})"
    by (auto simp: inj_on_def toPoint_def)
  have "card ({1..int g} \<times> {1..int g}) = g * g"
    by (simp add: card_cartesian_product)
  with card_image[OF inj] show ?thesis
    by (simp add: grid_image)
qed

lemma grid_free:
  assumes "length used < g * g"
  shows "\<exists>p. in_grid g p \<and> p \<notin> set used"
proof (rule ccontr)
  assume "\<not> (\<exists>p. in_grid g p \<and> p \<notin> set used)"
  then have "{p. in_grid g p} \<subseteq> set used" by auto
  then have "card {p. in_grid g p} \<le> card (set used)"
    by (intro card_mono) auto
  also have "\<dots> \<le> length used" by (rule card_length)
  finally show False using assms by (simp add: grid_card)
qed

lemma chooseUnoccupiedLocation_fair:
  assumes "fair_draws rnd g k0" "length used < g * g"
  shows "\<exists>i. chooseUnoccupiedLocation rnd g (k0 + 2 * m) used =
           Some (randomPoint rnd g (k0 + 2 * (m + i)),
                 used @ [randomPoint rnd g (k0 + 2 * (m + i))], k0 + 2 * (m + i + 1))
         \<and> randomPoint rnd g (k0 + 2 * (m + i)) \<notin> set used"
proof -
  from grid_free[OF assms(2)] obtain p where p: "in_grid g p" "p \<notin> set used" by blast
  with assms(1) obtain j where "randomPoint rnd g (k0 + 2 * (m + j)) = p"
    by (auto simp: fair_draws_def)
  with p have "randomPoint rnd g (k0 + 2 * m + 2 * j) \<notin> set used"
    by (simp add: algebra_simps)
  from chooseUnoccupiedLocation_returns_at[OF this] obtain i where
    "chooseUnoccupiedLocation rnd g (k0 + 2 * m) used =
       Some (randomPoint rnd g (k0 + 2 * m + 2 * i),
             used @ [randomPoint rnd g (k0 + 2 * m + 2 * i)], k0 + 2 * m + 2 * i + 2)"
    "randomPoint rnd g (k0 + 2 * m + 2 * i) \<notin> set used" by blast
  then show ?thesis
    by (intro exI[of _ i]) (simp add: algebra_simps)
qed

lemma chooseUnoccupiedLocation_saturated:
  assumes "unit_draws rnd" "0 < g" "\<forall>p. in_grid g p \<longrightarrow> p \<in> set used"
  shows "chooseUnoccupiedLocation rnd g k used = None"
proof (cases "chooseUnoccupiedLocation rnd g k used")
  case None
  then show ?thesis .
next
  case (Some r)
  from chooseUnoccupiedLocation_Some[OF Some] obtain j where
    "randomPoint rnd g (k + 2 * j) \<notin> set used" by blast
  with assms(3) randomPoint_in_grid[OF assms(1,2)] show ?thesis by blast
qed


subsection \<open>Initialisation\<close>

lemma initGame_loop_Some:
  assumes "initGame_loop rnd s i used k = Some (s', used', k')"
    and "map Some used = Some (playerLocation s) # Some (monsterLocation s) # treasureLocations s"
    and "distinct used"
    and "length (treasureLocations s) = i"
    and "i \<le> length (treasures s)"
  shows "map Some used' = Some (playerLocation s') # Some (monsterLocation s') # treasureLocations s'
         \<and> distinct used'
         \<and> length (treasureLocations s') = length (treasures s')
         \<and> s' = s\<lparr>treasureLocations := treasureLocations s'\<rparr>
         \<and> set used' \<subseteq> set used \<union> range (randomPoint rnd (GRID_SIZE s))"
  using assms
proof (induction rnd s i used k rule: initGame_loop.induct)
  case (1 rnd s i used k)
  show ?case
  proof (cases "i < length (treasures s)")
    case False
    with "1.prems"(1) have "s' = s \<and> used' = used"
      by (subst (asm) initGame_loop.simps) simp
    with False "1.prems" show ?thesis by simp
  next
    case True
    let ?g = "GRID_SIZE s"
    from "1.prems"(1) True obtain loc used1 k1 where
      c: "chooseUnoccupiedLocation rnd ?g k used = Some (loc, used1, k1)" and
      rec: "initGame_loop rnd (s\<lparr>treasureLocations := treasureLocations s @ [Some loc]\<rparr>)
              (i + 1) used1 k1 = Some (s', used', k')"
      by (subst (asm) initGame_loop.simps) (auto split: option.splits)
    from chooseUnoccupiedLocation_Some[OF c] obtain j where
      loc: "loc = randomPoint rnd ?g (k + 2 * j)" and used1: "used1 = used @ [loc]"
      and fresh: "loc \<notin> set used" by auto
    let ?s1 = "s\<lparr>treasureLocations := treasureLocations s @ [Some loc]\<rparr>"
    have p1: "map Some used1 =
        Some (playerLocation ?s1) # Some (monsterLocation ?s1) # treasureLocations ?s1"
      using "1.prems"(2) by (simp add: used1)
    have p2: "distinct used1" using "1.prems"(3) fresh by (simp add: used1)
    have p3: "length (treasureLocations ?s1) = i + 1" using "1.prems"(4) by simp
    have p4: "i + 1 \<le> length (treasures ?s1)" using True by simp
    from "1.IH"[OF True c refl refl rec p1 p2 p3 p4]
    have ih: "map Some used' =
        Some (playerLocation s') # Some (monsterLocation s') # treasureLocations s'"
      "distinct used'" "length (treasureLocations s') = length (treasures s')"
      "s' = ?s1\<lparr>treasureLocations := treasureLocations s'\<rparr>"
      "set used' \<subseteq> set used1 \<union> range (randomPoint rnd (GRID_SIZE ?s1))" by auto
    from ih(4) have eq: "s' = s\<lparr>treasureLocations := treasureLocations s'\<rparr>" by simp
    from ih(5) have sub: "set used' \<subseteq> set used \<union> range (randomPoint rnd ?g)"
      by (auto simp: used1 loc)
    from ih(1,2,3) eq sub show ?thesis by blast
  qed
qed

lemma initGame_loop_fair:
  assumes "fair_draws rnd (GRID_SIZE s) k0"
    and "length used + (length (treasures s) - i) \<le> GRID_SIZE s * GRID_SIZE s"
    and "k = k0 + 2 * m"
  shows "\<exists>r. initGame_loop rnd s i used k = Some r"
  using assms
proof (induction rnd s i used k arbitrary: m rule: initGame_loop.induct)
  case (1 rnd s i used k)
  show ?case
  proof (cases "i < length (treasures s)")
    case False
    then show ?thesis by (subst initGame_loop.simps) simp
  next
    case True
    let ?g = "GRID_SIZE s"
    from True "1.prems"(2) have "length used < ?g * ?g" by simp
    from chooseUnoccupiedLocation_fair[OF "1.prems"(1) this, of m] obtain j where
      c: "chooseUnoccupiedLocation rnd ?g k used =
           Some (randomPoint rnd ?g (k0 + 2 * (m + j)),
                 used @ [randomPoint rnd ?g (k0 + 2 * (m + j))], k0 + 2 * (m + j + 1))"
      unfolding "1.prems"(3) by blast
    let ?loc = "randomPoint rnd ?g (k0 + 2 * (m + j))"
    let ?s1 = "s\<lparr>treasureLocations := treasureLocations s @ [Some ?loc]\<rparr>"
    have f1: "fair_draws rnd (GRID_SIZE ?s1) k0" using "1.prems"(1) by simp
    have f2: "length (used @ [?loc]) + (length (treasures ?s1) - (i + 1))
        \<le> GRID_SIZE ?s1 * GRID_SIZE ?s1"
      using True "1.prems"(2) by simp
    from "1.IH"[OF True c refl refl f1 f2 refl] obtain r where
      r: "initGame_loop rnd ?s1 (i + 1) (used @ [?loc]) (k0 + 2 * (m + j + 1)) = Some r" by blast
    have "initGame_loop rnd s i used k =
        initGame_loop rnd ?s1 (i + 1) (used @ [?loc]) (k0 + 2 * (m + j + 1))"
      by (subst initGame_loop.simps) (simp only: True c if_True option.case prod.case)
    with r show ?thesis by (simp only: exI)
  qed
qed

lemma initGame_Some:
  assumes "initGame rnd k s = Some (s', k')"
  shows "s' = s\<lparr>treasureLocations := treasureLocations s', foundTreasureCount := 0,
                 playerLocation := toPoint 1 1, monsterLocation := monsterLocation s'\<rparr>
         \<and> distinct (Some (toPoint 1 1) # Some (monsterLocation s') # treasureLocations s')
         \<and> None \<notin> set (treasureLocations s')
         \<and> length (treasureLocations s') = length (treasures s)
         \<and> (\<forall>p. p = monsterLocation s' \<or> Some p \<in> set (treasureLocations s') \<longrightarrow>
                p \<in> range (randomPoint rnd (GRID_SIZE s)))"
proof -
  let ?g = "GRID_SIZE s"
  let ?s2 = "s\<lparr>treasureLocations := [], foundTreasureCount := 0, playerLocation := toPoint 1 1\<rparr>"
  from assms obtain loc used1 k1 r where
    c: "chooseUnoccupiedLocation rnd ?g k [toPoint 1 1] = Some (loc, used1, k1)" and
    l: "initGame_loop rnd (?s2\<lparr>monsterLocation := loc\<rparr>) 0 used1 k1 = Some (s', r)"
    unfolding initGame_def Let_def by (simp split: option.splits prod.splits)
  obtain used' k2 where r: "r = (used', k2)" by (cases r)
  from chooseUnoccupiedLocation_Some[OF c] obtain j where
    loc: "loc = randomPoint rnd ?g (k + 2 * j)" and used1: "used1 = [toPoint 1 1, loc]"
    and fresh: "loc \<noteq> toPoint 1 1" by auto
  let ?s3 = "?s2\<lparr>monsterLocation := loc\<rparr>"
  have p1: "map Some used1 =
      Some (playerLocation ?s3) # Some (monsterLocation ?s3) # treasureLocations ?s3"
    by (simp add: used1)
  have p2: "distinct used1" using fresh by (simp add: used1)
  from initGame_loop_Some[OF l[unfolded r] p1 p2]
  have res: "map Some used' =
      Some (playerLocation s') # Some (monsterLocation s') # treasureLocations s'"
    "distinct used'" "length (treasureLocations s') = length (treasures s')"
    "s' = ?s3\<lparr>treasureLocations := treasureLocations s'\<rparr>"
    "set used' \<subseteq> set used1 \<union> range (randomPoint rnd (GRID_SIZE ?s3))" by auto
  have mon: "monsterLocation s' = loc"
    by (subst res(4)) simp
  have pl: "playerLocation s' = toPoint 1 1"
    by (subst res(4)) simp
  have tr: "treasures s' = treasures s"
    by (subst res(4)) simp
  have gs: "GRID_SIZE s' = GRID_SIZE s"
    by (subst res(4)) simp
  have fc: "foundTreasureCount s' = 0"
    by (subst res(4)) simp
  have eq: "s' = s\<lparr>treasureLocations := treasureLocations s', foundTreasureCount := 0,
                 playerLocation := toPoint 1 1, monsterLocation := monsterLocation s'\<rparr>"
    by (rule game.equality) (simp_all add: pl tr gs fc)
  have d: "distinct (map Some used')" using res(2) by (simp add: distinct_map)
  have dist: "distinct (Some (toPoint 1 1) # Some (monsterLocation s') # treasureLocations s')"
    using d unfolding res(1) pl .
  have "None \<notin> set (map Some used')" by auto
  then have none: "None \<notin> set (treasureLocations s')"
    unfolding res(1) by simp
  have rng: "p \<in> range (randomPoint rnd ?g)"
    if "p = monsterLocation s' \<or> Some p \<in> set (treasureLocations s')" for p
  proof -
    from that have "Some p \<in> set (map Some used')" "p \<noteq> toPoint 1 1"
      using dist unfolding res(1) by auto
    then have "p \<in> set used'" by auto
    with res(5) \<open>p \<noteq> toPoint 1 1\<close> show ?thesis
      by (auto simp: used1 loc)
  qed
  from eq dist none res(3) tr rng show ?thesis by auto
qed

lemma distinct_present: "distinct es \<Longrightarrow> distinct (present es)"
  by (induction es rule: present.induct) (auto simp: set_present)

lemma initGame_placed_apart:
  assumes "initGame rnd k s = Some (s', k')"
  shows "placed_apart s'"
proof -
  from initGame_Some[OF assms]
  have d: "distinct (Some (toPoint 1 1) # Some (monsterLocation s') # treasureLocations s')"
    by blast
  then have "Some (monsterLocation s') \<notin> set (treasureLocations s')"
    "distinct (treasureLocations s')" by auto
  then show ?thesis
    by (simp add: placed_apart_def set_present distinct_present)
qed

lemma initGame_foundCount_ok:
  assumes "initGame rnd k s = Some (s', k')"
  shows "paired s' \<and> foundCount_ok s'"
proof -
  from initGame_Some[OF assms]
  have eq: "s' = s\<lparr>treasureLocations := treasureLocations s', foundTreasureCount := 0,
                 playerLocation := toPoint 1 1, monsterLocation := monsterLocation s'\<rparr>"
    and none: "None \<notin> set (treasureLocations s')"
    and len: "length (treasureLocations s') = length (treasures s)" by blast+
  have tr: "treasures s' = treasures s" by (subst eq) simp
  have fc: "foundTreasureCount s' = 0" by (subst eq) simp
  from none have "count_list (treasureLocations s') None = 0"
    by (simp add: count_list_0_iff)
  with tr fc len show ?thesis
    by (simp add: paired_def foundCount_ok_def)
qed

lemma initGame_in_grid:
  assumes "initGame rnd k s = Some (s', k')" "unit_draws rnd"
  shows "in_grid (GRID_SIZE s) (toPoint 1 1) \<and> in_grid (GRID_SIZE s) (monsterLocation s')
         \<and> list_all (in_grid (GRID_SIZE s)) (present (treasureLocations s'))"
proof -
  let ?g = "GRID_SIZE s"
  from initGame_Some[OF assms(1)]
  have rng: "\<And>p. p = monsterLocation s' \<or> Some p \<in> set (treasureLocations s') \<Longrightarrow>
      p \<in> range (randomPoint rnd ?g)"
    and d: "distinct (Some (toPoint 1 1) # Some (monsterLocation s') # treasureLocations s')"
    by blast+
  have pos: "0 < ?g"
  proof (rule ccontr)
    assume "\<not> 0 < ?g"
    then have "randomPoint rnd ?g j = toPoint 1 1" for j
      by (simp add: randomPoint_def)
    with rng[of "monsterLocation s'"] have "monsterLocation s' = toPoint 1 1" by auto
    with d show False by simp
  qed
  have g: "in_grid ?g p" if "p \<in> range (randomPoint rnd ?g)" for p
    using that randomPoint_in_grid[OF assms(2) pos] by auto
  have one: "in_grid ?g (toPoint 1 1)"
    using pos by (simp add: in_grid_def toPoint_def)
  from rng g have "in_grid ?g (monsterLocation s')"
    "\<forall>p \<in> set (present (treasureLocations s')). in_grid ?g p"
    by (auto simp: set_present)
  with one show ?thesis by (simp add: list_all_iff)
qed

lemma initGame_fair:
  assumes "fair_draws rnd (GRID_SIZE s) k"
    and "length (treasures s) + 2 \<le> GRID_SIZE s * GRID_SIZE s"
  shows "initGame rnd k s \<noteq> None"
proof -
  let ?g = "GRID_SIZE s"
  let ?s2 = "s\<lparr>treasureLocations := [], foundTreasureCount := 0, playerLocation := toPoint 1 1\<rparr>"
  have "length [toPoint 1 1] < ?g * ?g" using assms(2) by simp
  from chooseUnoccupiedLocation_fair[OF assms(1) this, of 0] obtain i where
    c: "chooseUnoccupiedLocation rnd ?g k [toPoint 1 1] =
          Some (randomPoint rnd ?g (k + 2 * i),
                [toPoint 1 1] @ [randomPoint rnd ?g (k + 2 * i)], k + 2 * (i + 1))"
    by auto
  let ?loc = "randomPoint rnd ?g (k + 2 * i)"
  let ?s3 = "?s2\<lparr>monsterLocation := ?loc\<rparr>"
  have f1: "fair_draws rnd (GRID_SIZE ?s3) k" using assms(1) by simp
  have f2: "length ([toPoint 1 1] @ [?loc]) + (length (treasures ?s3) - 0)
      \<le> GRID_SIZE ?s3 * GRID_SIZE ?s3"
    using assms(2) by simp
  from initGame_loop_fair[OF f1 f2 refl, of "i + 1"] obtain r where
    r: "initGame_loop rnd ?s3 0 ([toPoint 1 1] @ [?loc]) (k + 2 * (i + 1)) = Some r" by blast
  obtain s' used' k' where "r = (s', used', k')" by (cases r)
  with r c have "initGame rnd k s = Some (s', k')"
    unfolding initGame_def Let_def by simp
  then show ?thesis by simp
qed

subsection \<open>An example run\<close>

text \<open>
  The cyclic draws are in \<open>[0, 1)\<close> and fair; on them \<open>initGame\<close> skips the first
  candidate, \<open>(1, 1)\<close>, and places the monster and the six treasures on the next seven.
\<close>

lemma unit_draws_cycling: "unit_draws cycling_draws"
proof -
  have mid: "0 \<le> (real c + 1 / 2) / 5 \<and> (real c + 1 / 2) / 5 < 1" if "c < 5" for c :: nat
  proof -
    from that have "real c \<le> 4" by simp
    then show ?thesis by simp
  qed
  have "0 \<le> cycling_draws k \<and> cycling_draws k < 1" for k
  proof (cases "even k")
    case True
    then have "cycling_draws k = (real ((k div 2) mod 5) + 1 / 2) / 5"
      by (simp add: cycling_draws_def)
    with mid[of "(k div 2) mod 5"] show ?thesis by simp
  next
    case False
    then have "cycling_draws k = (real ((k div 2) div 5 mod 5) + 1 / 2) / 5"
      by (simp add: cycling_draws_def)
    with mid[of "(k div 2) div 5 mod 5"] show ?thesis by simp
  qed
  then show ?thesis by (simp add: unit_draws_def)
qed

lemma floor_half: "\<lfloor>(real c + 1 / 2) / 5 * 5\<rfloor> = int c"
  by (simp add: floor_unique)

lemma randomPoint_cycling:
  "randomPoint cycling_draws 5 (2 * n) = toPoint (int (n mod 5) + 1) (int (n div 5 mod 5) + 1)"
proof -
  have e: "cycling_draws (2 * n) = (real (n mod 5) + 1 / 2) / 5"
    by (simp add: cycling_draws_def)
  have o: "cycling_draws (2 * n + 1) = (real (n div 5 mod 5) + 1 / 2) / 5"
    by (simp add: cycling_draws_def)
  show ?thesis
    unfolding randomPoint_def e o by (simp only: floor_half of_nat_numeral)
qed

lemma fair_draws_cycling: "fair_draws cycling_draws 5 0"
  unfolding fair_draws_def
proof (intro allI impI)
  fix m p assume "in_grid 5 p"
  then have b: "1 \<le> x p" "x p \<le> 5" "1 \<le> y p" "y p \<le> 5" by (simp_all add: in_grid_def)
  define a where "a = nat (x p - 1)"
  define c where "c = nat (y p - 1)"
  have ac: "a < 5" "c < 5" "int a + 1 = x p" "int c + 1 = y p"
    using b by (simp_all add: a_def c_def)
  define j where "j = 24 * m + a + 5 * c"
  have n: "m + j = 5 * (5 * m + c) + a" by (simp add: j_def)
  have m5: "(m + j) mod 5 = a"
    using ac(1) by (simp only: n mod_mult_self4 mod_less)
  have "(m + j) div 5 = 5 * m + c"
    using ac(1) by (simp only: n div_mult_self4 div_less)
  then have d5: "(m + j) div 5 mod 5 = c"
    using ac(2) by (simp only: mod_mult_self4 mod_less)
  have "randomPoint cycling_draws 5 (2 * (m + j)) = toPoint (x p) (y p)"
    unfolding randomPoint_cycling m5 d5 ac(3,4) ..
  then have "randomPoint cycling_draws 5 (0 + 2 * (m + j)) = p"
    by (simp only: point_eq_toPoint add_0)
  then show "\<exists>j. randomPoint cycling_draws 5 (0 + 2 * (m + j)) = p" ..
qed

lemma randomPoint_cycling_values:
  "randomPoint cycling_draws 5 0 = toPoint 1 1"
  "randomPoint cycling_draws 5 2 = toPoint 2 1"
  "randomPoint cycling_draws 5 4 = toPoint 3 1"
  "randomPoint cycling_draws 5 6 = toPoint 4 1"
  "randomPoint cycling_draws 5 8 = toPoint 5 1"
  "randomPoint cycling_draws 5 10 = toPoint 1 2"
  "randomPoint cycling_draws 5 12 = toPoint 2 2"
  "randomPoint cycling_draws 5 14 = toPoint 3 2"
  using randomPoint_cycling[of 0] randomPoint_cycling[of 1] randomPoint_cycling[of 2]
    randomPoint_cycling[of 3] randomPoint_cycling[of 4] randomPoint_cycling[of 5]
    randomPoint_cycling[of 6] randomPoint_cycling[of 7]
  by simp_all

lemma toPoint_neq [simp]: "toPoint a b = toPoint c d \<longleftrightarrow> a = c \<and> b = d"
  by (simp add: toPoint_def)

lemma choose_cycling:
  "chooseUnoccupiedLocation cycling_draws 5 0 [toPoint 1 1]
     = Some (toPoint 2 1, [toPoint 1 1, toPoint 2 1], 4)"
  apply (subst chooseUnoccupiedLocation_step)
  apply (simp add: randomPoint_cycling_values del: add_2_eq_Suc add_2_eq_Suc')
  apply (subst chooseUnoccupiedLocation_step)
  apply (simp add: randomPoint_cycling_values del: add_2_eq_Suc add_2_eq_Suc')
  done

lemma initGame_cycling: "initGame cycling_draws 0 globals = Some (start_state, 16)"
proof -
  have g: "GRID_SIZE globals = 5" "length (treasures globals) = 6"
    by (simp_all add: globals_def)
  show ?thesis
    unfolding initGame_def Let_def
    apply (simp add: g choose_cycling)
    apply (subst initGame_loop.simps, subst chooseUnoccupiedLocation_step,
           simp add: g randomPoint_cycling_values del: add_2_eq_Suc add_2_eq_Suc')+
    apply (simp add: start_state_def globals_def)
    done
qed

lemma enterLocation_start:
  "enterLocation start_state (toPoint 1 2) =
     (True,
      [''\<newline>You are now in location (1, 2)'', ''You found the coin!'',
       ''You have 5 more treasures to find!'', ''You can hear a growling sound nearby!''],
      found_state)"
  by code_simp

lemma enterLocation_last:
  "enterLocation last_state (toPoint 1 2) =
     (False,
      [''\<newline>You are now in location (1, 2)'', ''You found the goblet!'',
       ''You found all 6 treasures!  You win!!''],
      won_state)"
  by code_simp

lemma enterLocation_empty_square:
  "enterLocation last_state (toPoint 2 2) =
     (True, [''\<newline>You are now in location (2, 2)'',
             ''You can hear a growling sound nearby!''],
      last_state\<lparr>playerLocation := toPoint 2 2\<rparr>)"
  by code_simp

lemma processCommand_start:
  "processCommand start_state ''d'' = enterLocation start_state (toPoint 1 2)"
  by code_simp

lemma start_facts:
  "placed_apart start_state" "paired start_state" "foundCount_ok start_state"
  "in_grid 5 (playerLocation start_state)" "GRID_SIZE start_state = 5"
  "Some (toPoint 1 2) \<in> set (treasureLocations start_state)"
  "foundTreasureCount start_state = 0"
  by code_simp+

lemma found_facts:
  "placed_apart found_state" "paired found_state" "foundCount_ok found_state"
  "in_grid 5 (playerLocation found_state)" "GRID_SIZE found_state = 5"
  "foundTreasureCount found_state = 1"
  by code_simp+

lemma last_facts:
  "\<not> isEqualPoint (Some (monsterLocation last_state)) (Some (toPoint 1 2))"
  "findPoint (treasureLocations last_state) (Some (toPoint 1 2)) = Some 5"
  "foundTreasureCount last_state + 1 = int (length (treasures last_state))"
  "showInt (int (length (treasures last_state))) = ''6''"
  by code_simp+

lemma normalizeCommand_values:
  "normalizeCommand ''   '' = []" "list_all isWhiteSpace ''   ''"
  "normalizeCommand ''Xyzzy'' = ''xyzzy''" "normalizeCommand '' L '' = ''l''"
  "normalizeCommand ''u'' = ''u''"
  by code_simp+

section \<open>Claims\<close>

text \<open>
  C1: when the new location is the monster's, \<open>enterLocation\<close> logs the location line
  and the death line and nothing else, returns \<open>false\<close>, and changes the player's
  location only: no treasure entry is cleared and the count of found treasures stays,
  whether or not a treasure lies there.
\<close>

theorem enterLocation_death:
  assumes "isEqualPoint (Some (monsterLocation s)) (Some location)"
  shows "enterLocation s location =
           (False,
            [''\<newline>You are now in location '' @ toString location,
             ''Oh no!!  You've been eaten by a hungry monster!''],
            s\<lparr>playerLocation := location\<rparr>)
         \<and> treasureLocations (snd (snd (enterLocation s location))) = treasureLocations s
         \<and> foundTreasureCount (snd (snd (enterLocation s location))) = foundTreasureCount s"
  using assms by (simp add: enterLocation_def)

theorem enterLocation_death_witness:
  "isEqualPoint (Some (monsterLocation death_state)) (Some (toPoint 1 2))
   \<and> Some (toPoint 1 2) \<in> set (treasureLocations death_state)
   \<and> enterLocation death_state (toPoint 1 2) =
       (False,
        [''\<newline>You are now in location (1, 2)'',
         ''Oh no!!  You've been eaten by a hungry monster!''],
        death_state\<lparr>playerLocation := toPoint 1 2\<rparr>)
   \<and> treasureLocations (snd (snd (enterLocation death_state (toPoint 1 2))))
       = [Some (toPoint 1 2), Some (toPoint 3 3)]
   \<and> foundTreasureCount (snd (snd (enterLocation death_state (toPoint 1 2)))) = 0"
proof -
  have eq: "isEqualPoint (Some (monsterLocation death_state)) (Some (toPoint 1 2))"
    by (simp add: death_state_def isEqualPoint_def toPoint_def)
  have str: "toString (toPoint 1 2) = ''(1, 2)''"
    by (simp add: toString_def toPoint_def showInt_def showNat.simps)
  show ?thesis
    using enterLocation_death[OF eq] eq
    by (simp add: str) (simp add: death_state_def globals_def)
qed

text \<open>
  C2: \<open>enterLocation\<close> returns \<open>false\<close> exactly when the new location is the
  monster's, or a treasure still lies at the new location and collecting it brings
  the count to the number of treasures; said by the effect, the count has gone up by 1
  and now equals the number of treasures. In that second case, when the monster is
  elsewhere, the last line logged is the win message with that number.
\<close>

theorem enterLocation_terminal:
  assumes "enterLocation s location = (continue, out, s')"
  shows "(continue = False \<longleftrightarrow>
            location = monsterLocation s
            \<or> (Some location \<in> set (treasureLocations s)
               \<and> foundTreasureCount s + 1 = int (length (treasures s))))
         \<and> (continue = False \<longleftrightarrow>
            location = monsterLocation s
            \<or> (Some location \<in> set (treasureLocations s)
               \<and> foundTreasureCount s' = foundTreasureCount s + 1
               \<and> foundTreasureCount s' = int (length (treasures s'))))
         \<and> (location \<noteq> monsterLocation s
            \<and> Some location \<in> set (treasureLocations s)
            \<and> foundTreasureCount s + 1 = int (length (treasures s))
            \<longrightarrow> foundTreasureCount s' = int (length (treasures s'))
               \<and> last out = ''You found all '' @ showInt (int (length (treasures s)))
                               @ '' treasures!  You win!!'')"
proof -
  have f: "findPoint (treasureLocations s) (Some location) \<noteq> None
      \<longleftrightarrow> Some location \<in> set (treasureLocations s)"
    by (simp add: findPoint_None)
  have s': "s' = snd (snd (enterLocation s location))" using assms by simp
  have cnt: "foundTreasureCount s' =
     (if location \<noteq> monsterLocation s \<and> Some location \<in> set (treasureLocations s)
      then foundTreasureCount s + 1 else foundTreasureCount s)"
    unfolding s' by (rule enterLocation_count)
  have tr: "treasures s' = treasures s"
    unfolding s' by (auto simp: enterLocation_state split: option.splits)
  have c: "continue = False \<longleftrightarrow>
            location = monsterLocation s
            \<or> (Some location \<in> set (treasureLocations s)
               \<and> foundTreasureCount s + 1 = int (length (treasures s)))"
    using assms unfolding f[symmetric]
    by (auto simp: enterLocation_def isEqualPoint_iff Let_def split: option.splits if_splits)
  have w: "location \<noteq> monsterLocation s
            \<and> Some location \<in> set (treasureLocations s)
            \<and> foundTreasureCount s + 1 = int (length (treasures s))
            \<longrightarrow> last out = ''You found all '' @ showInt (int (length (treasures s)))
                               @ '' treasures!  You win!!''"
    using assms unfolding f[symmetric]
    by (auto simp: enterLocation_def isEqualPoint_iff Let_def split: option.splits if_splits)
  from c w cnt tr show ?thesis by auto
qed

theorem enterLocation_terminal_witness:
  "enterLocation last_state (toPoint 1 2) =
     (False,
      [''\<newline>You are now in location (1, 2)'', ''You found the goblet!'',
       ''You found all 6 treasures!  You win!!''],
      won_state)
   \<and> toPoint 1 2 \<noteq> monsterLocation last_state
   \<and> Some (toPoint 1 2) \<in> set (treasureLocations last_state)
   \<and> foundTreasureCount last_state + 1 = int (length (treasures last_state))
   \<and> foundTreasureCount won_state = int (length (treasures won_state))
   \<and> last [''\<newline>You are now in location (1, 2)'', ''You found the goblet!'',
            ''You found all 6 treasures!  You win!!'']
       = ''You found all 6 treasures!  You win!!''
   \<and> toPoint 2 2 \<noteq> monsterLocation last_state
   \<and> Some (toPoint 2 2) \<notin> set (treasureLocations last_state)
   \<and> enterLocation last_state (toPoint 2 2) =
       (True, [''\<newline>You are now in location (2, 2)'',
               ''You can hear a growling sound nearby!''],
        last_state\<lparr>playerLocation := toPoint 2 2\<rparr>)"
proof -
  have here: "toPoint 1 2 \<noteq> monsterLocation last_state"
    "Some (toPoint 1 2) \<in> set (treasureLocations last_state)"
    "toPoint 2 2 \<noteq> monsterLocation last_state"
    "Some (toPoint 2 2) \<notin> set (treasureLocations last_state)"
    by code_simp+
  from enterLocation_terminal[OF enterLocation_last] here(1,2) last_facts(3)
  have "foundTreasureCount won_state = int (length (treasures won_state))"
    by simp
  with enterLocation_last enterLocation_empty_square here last_facts(3) show ?thesis by simp
qed

text \<open>
  C3: for a board and a list of names with \<open>length treasures + 2 \<le> GRID_SIZE\<^sup>2\<close>
  and draws in \<open>[0, 1)\<close>: whenever \<open>initGame\<close> returns, the player is at \<open>(1, 1)\<close>, the
  player's, the monster's and all treasure locations are pairwise distinct, every
  treasure has a location, and all of them lie on the board. It does return when the
  draws are fair.
\<close>

theorem initGame_placement:
  assumes "unit_draws rnd"
    and "length (treasures s) + 2 \<le> (GRID_SIZE s)\<^sup>2"
  shows "(fair_draws rnd (GRID_SIZE s) k \<longrightarrow> initGame rnd k s \<noteq> None)
         \<and> (\<forall>s' k'. initGame rnd k s = Some (s', k') \<longrightarrow>
               playerLocation s' = toPoint 1 1
               \<and> distinct (Some (playerLocation s') # Some (monsterLocation s')
                           # treasureLocations s')
               \<and> None \<notin> set (treasureLocations s')
               \<and> length (treasureLocations s') = length (treasures s)
               \<and> in_grid (GRID_SIZE s) (playerLocation s')
               \<and> in_grid (GRID_SIZE s) (monsterLocation s')
               \<and> list_all (in_grid (GRID_SIZE s)) (present (treasureLocations s')))"
proof (intro conjI impI allI)
  assume "fair_draws rnd (GRID_SIZE s) k"
  with assms(2) show "initGame rnd k s \<noteq> None"
    by (intro initGame_fair) (simp_all add: power2_eq_square)
next
  fix s' k' assume run: "initGame rnd k s = Some (s', k')"
  from initGame_Some[OF run]
  have eq: "s' = s\<lparr>treasureLocations := treasureLocations s', foundTreasureCount := 0,
                 playerLocation := toPoint 1 1, monsterLocation := monsterLocation s'\<rparr>"
    and d: "distinct (Some (toPoint 1 1) # Some (monsterLocation s') # treasureLocations s')"
    and none: "None \<notin> set (treasureLocations s')"
    and len: "length (treasureLocations s') = length (treasures s)" by blast+
  show pl: "playerLocation s' = toPoint 1 1" by (subst eq) simp
  show "distinct (Some (playerLocation s') # Some (monsterLocation s') # treasureLocations s')"
    unfolding pl by (rule d)
  show "None \<notin> set (treasureLocations s')" by (rule none)
  show "length (treasureLocations s') = length (treasures s)" by (rule len)
  from initGame_in_grid[OF run assms(1)]
  show "in_grid (GRID_SIZE s) (playerLocation s')"
    "in_grid (GRID_SIZE s) (monsterLocation s')"
    "list_all (in_grid (GRID_SIZE s)) (present (treasureLocations s'))"
    unfolding pl by blast+
qed

theorem initGame_placement_witness:
  "unit_draws cycling_draws
   \<and> length (treasures globals) + 2 \<le> (GRID_SIZE globals)\<^sup>2
   \<and> fair_draws cycling_draws (GRID_SIZE globals) 0
   \<and> initGame cycling_draws 0 globals = Some (start_state, 16)
   \<and> playerLocation start_state = toPoint 1 1
   \<and> monsterLocation start_state = toPoint 2 1
   \<and> distinct (Some (playerLocation start_state) # Some (monsterLocation start_state)
               # treasureLocations start_state)
   \<and> None \<notin> set (treasureLocations start_state)
   \<and> length (treasureLocations start_state) = length (treasures globals)
   \<and> in_grid (GRID_SIZE globals) (playerLocation start_state)
   \<and> in_grid (GRID_SIZE globals) (monsterLocation start_state)
   \<and> list_all (in_grid (GRID_SIZE globals)) (present (treasureLocations start_state))"
proof -
  have g: "GRID_SIZE globals = 5" "length (treasures globals) = 6"
    by (simp_all add: globals_def)
  have size: "length (treasures globals) + 2 \<le> (GRID_SIZE globals)\<^sup>2"
    by (simp add: g)
  have fair: "fair_draws cycling_draws (GRID_SIZE globals) 0"
    using fair_draws_cycling by (simp add: g)
  have mon: "monsterLocation start_state = toPoint 2 1" by code_simp
  from initGame_placement[OF unit_draws_cycling size, of 0] fair initGame_cycling
  have "initGame cycling_draws 0 globals \<noteq> None"
    "playerLocation start_state = toPoint 1 1
     \<and> distinct (Some (playerLocation start_state) # Some (monsterLocation start_state)
                 # treasureLocations start_state)
     \<and> None \<notin> set (treasureLocations start_state)
     \<and> length (treasureLocations start_state) = length (treasures globals)
     \<and> in_grid (GRID_SIZE globals) (playerLocation start_state)
     \<and> in_grid (GRID_SIZE globals) (monsterLocation start_state)
     \<and> list_all (in_grid (GRID_SIZE globals)) (present (treasureLocations start_state))"
    by blast+
  with unit_draws_cycling size fair initGame_cycling mon show ?thesis by blast
qed

text \<open>
  C4: a line that normalises to the empty string (an empty line, a line of white space
  only) gets \<open>What??\<close>; a line that normalises to none of \<open>q\<close>, \<open>l\<close>, \<open>r\<close>,
  \<open>u\<close>, \<open>d\<close> gets \<open>I don't know what you mean\<close>; a move whose guard fails gets
  \<open>You can't move in that direction!\<close>. In each case that line is the only output,
  the result is \<open>true\<close> and the state is the one passed in. \<open>processCommand\<close> has no
  failing branch: on a string and a state it always returns.
\<close>

theorem processCommand_rejects:
  "(normalizeCommand command = [] \<longrightarrow> processCommand s command = (True, [''What??''], s))
   \<and> (list_all isWhiteSpace command \<longrightarrow> normalizeCommand command = [])
   \<and> (normalizeCommand command \<notin> {[], ''q'', ''l'', ''r'', ''u'', ''d''} \<longrightarrow>
        processCommand s command = (True, [''I don't know what you mean''], s))
   \<and> (normalizeCommand command = ''l'' \<and> \<not> x (playerLocation s) > 1
        \<or> normalizeCommand command = ''r'' \<and> \<not> x (playerLocation s) < int (GRID_SIZE s)
        \<or> normalizeCommand command = ''u'' \<and> \<not> y (playerLocation s) > 1
        \<or> normalizeCommand command = ''d'' \<and> \<not> y (playerLocation s) < int (GRID_SIZE s) \<longrightarrow>
        processCommand s command = (True, [''You can't move in that direction!''], s))"
proof -
  have a: "normalizeCommand command = [] \<longrightarrow> processCommand s command = (True, [''What??''], s)"
    by (simp add: processCommand_def)
  have b: "list_all isWhiteSpace command \<longrightarrow> normalizeCommand command = []"
    by (simp add: normalizeCommand_whiteSpace)
  have c: "normalizeCommand command \<notin> {[], ''q'', ''l'', ''r'', ''u'', ''d''} \<longrightarrow>
        processCommand s command = (True, [''I don't know what you mean''], s)"
    by (simp add: processCommand_def)
  have d: "normalizeCommand command = ''l'' \<and> \<not> x (playerLocation s) > 1
        \<or> normalizeCommand command = ''r'' \<and> \<not> x (playerLocation s) < int (GRID_SIZE s)
        \<or> normalizeCommand command = ''u'' \<and> \<not> y (playerLocation s) > 1
        \<or> normalizeCommand command = ''d'' \<and> \<not> y (playerLocation s) < int (GRID_SIZE s) \<longrightarrow>
        processCommand s command = (True, [''You can't move in that direction!''], s)"
    by (auto simp: processCommand_def)
  from a b c d show ?thesis by blast
qed

theorem processCommand_rejects_witness:
  "list_all isWhiteSpace ''   ''
   \<and> normalizeCommand ''   '' = []
   \<and> processCommand start_state ''   '' = (True, [''What??''], start_state)
   \<and> processCommand start_state [] = (True, [''What??''], start_state)
   \<and> normalizeCommand ''Xyzzy'' = ''xyzzy''
   \<and> processCommand start_state ''Xyzzy'' = (True, [''I don't know what you mean''], start_state)
   \<and> normalizeCommand '' L '' = ''l''
   \<and> x (playerLocation start_state) = 1
   \<and> processCommand start_state '' L ''
       = (True, [''You can't move in that direction!''], start_state)
   \<and> y (playerLocation start_state) = 1
   \<and> processCommand start_state ''u''
       = (True, [''You can't move in that direction!''], start_state)"
proof -
  have px: "x (playerLocation start_state) = 1" "y (playerLocation start_state) = 1"
    by code_simp+
  have e: "normalizeCommand [] = []" by (simp add: normalizeCommand_def)
  from processCommand_rejects[of "''   ''" start_state] normalizeCommand_values(1)
  have a: "processCommand start_state ''   '' = (True, [''What??''], start_state)" by blast
  from processCommand_rejects[of "[]" start_state] e
  have b: "processCommand start_state [] = (True, [''What??''], start_state)" by blast
  from processCommand_rejects[of "''Xyzzy''" start_state]
  have c: "processCommand start_state ''Xyzzy''
      = (True, [''I don't know what you mean''], start_state)"
    by (simp add: normalizeCommand_values)
  from processCommand_rejects[of "'' L ''" start_state]
  have d: "processCommand start_state '' L ''
      = (True, [''You can't move in that direction!''], start_state)"
    by (simp add: normalizeCommand_values px)
  from processCommand_rejects[of "''u''" start_state]
  have f: "processCommand start_state ''u''
      = (True, [''You can't move in that direction!''], start_state)"
    by (simp add: normalizeCommand_values px)
  from a b c d f px normalizeCommand_values show ?thesis by simp
qed

text \<open>
  C5: the count of found treasures equals the number of cleared entries and lies
  between 0 and the number of treasures (with one entry per name) after \<open>initGame\<close>,
  and \<open>enterLocation\<close> and \<open>processCommand\<close> keep it so.
\<close>

theorem foundCount_invariant:
  "(initGame rnd k s0 = Some (s1, k') \<longrightarrow> paired s1 \<and> foundCount_ok s1)
   \<and> (paired s \<and> foundCount_ok s \<and> enterLocation s location = (continue, out, s') \<longrightarrow>
        paired s' \<and> foundCount_ok s')
   \<and> (paired s \<and> foundCount_ok s \<and> processCommand s command = (continue2, out2, s'') \<longrightarrow>
        paired s'' \<and> foundCount_ok s'')"
proof (intro conjI impI)
  assume "initGame rnd k s0 = Some (s1, k')"
  from initGame_foundCount_ok[OF this] show "paired s1" "foundCount_ok s1" by simp_all
next
  assume a: "paired s \<and> foundCount_ok s \<and> enterLocation s location = (continue, out, s')"
  then have p: "paired s" "foundCount_ok s"
    and run: "enterLocation s location = (continue, out, s')" by blast+
  from enterLocation_foundCount_ok[OF p, of location] show "paired s'" "foundCount_ok s'"
    unfolding run by simp_all
next
  assume a: "paired s \<and> foundCount_ok s \<and> processCommand s command = (continue2, out2, s'')"
  then have p: "paired s" "foundCount_ok s"
    and run: "processCommand s command = (continue2, out2, s'')" by blast+
  from processCommand_foundCount_ok[OF p, of command] show "paired s''" "foundCount_ok s''"
    unfolding run by simp_all
qed

theorem foundCount_invariant_witness:
  "initGame cycling_draws 0 globals = Some (start_state, 16)
   \<and> paired start_state \<and> foundCount_ok start_state
   \<and> enterLocation start_state (toPoint 1 2) =
       (True,
        [''\<newline>You are now in location (1, 2)'', ''You found the coin!'',
         ''You have 5 more treasures to find!'', ''You can hear a growling sound nearby!''],
        found_state)
   \<and> processCommand start_state ''d'' =
       (True,
        [''\<newline>You are now in location (1, 2)'', ''You found the coin!'',
         ''You have 5 more treasures to find!'', ''You can hear a growling sound nearby!''],
        found_state)
   \<and> paired found_state \<and> foundCount_ok found_state
   \<and> foundTreasureCount found_state = 1
   \<and> count_list (treasureLocations found_state) None = 1"
proof -
  have run: "processCommand start_state ''d'' =
       (True,
        [''\<newline>You are now in location (1, 2)'', ''You found the coin!'',
         ''You have 5 more treasures to find!'', ''You can hear a growling sound nearby!''],
        found_state)"
    using processCommand_start enterLocation_start by simp
  have cnt: "count_list (treasureLocations found_state) None = 1" by code_simp
  note inv = foundCount_invariant[of cycling_draws 0 globals start_state 16 start_state
      "toPoint 1 2" True _ found_state "''d''" True _ found_state]
  from inv initGame_cycling have s: "paired start_state" "foundCount_ok start_state"
    by blast+
  from inv s enterLocation_start have f: "paired found_state" "foundCount_ok found_state"
    by blast+
  from inv s run have "paired found_state \<and> foundCount_ok found_state"
    by blast
  with s f initGame_cycling enterLocation_start run cnt found_facts(6) show ?thesis
    by simp
qed

text \<open>
  C6: a call to \<open>enterLocation\<close> never lowers the count of found treasures, and leaves
  it alone when no treasure lies at the new location. On a board placed as \<open>initGame\<close>
  places it (which every call keeps), the count goes up by exactly 1 when a treasure
  still lies at the new location, and after the call no later call at that location
  changes the count again, whatever calls come in between.
\<close>

theorem enterLocation_foundCount:
  assumes "enterLocation s location = (continue, out, s')"
  shows "foundTreasureCount s \<le> foundTreasureCount s'
         \<and> (Some location \<notin> set (treasureLocations s) \<longrightarrow>
              foundTreasureCount s' = foundTreasureCount s)
         \<and> (placed_apart s \<longrightarrow>
              (Some location \<in> set (treasureLocations s) \<longrightarrow>
                 foundTreasureCount s' = foundTreasureCount s + 1)
              \<and> (\<forall>later. foundTreasureCount (enterLocations s' (later @ [location]))
                           = foundTreasureCount (enterLocations s' later))
              \<and> placed_apart s')
         \<and> (\<forall>rnd k s0 k0. initGame rnd k s0 = Some (s, k0) \<longrightarrow> placed_apart s)"
proof -
  have s': "s' = snd (snd (enterLocation s location))" using assms by simp
  have mono: "foundTreasureCount s \<le> foundTreasureCount s'"
    by (simp add: s' enterLocation_count)
  have same: "Some location \<notin> set (treasureLocations s) \<longrightarrow>
      foundTreasureCount s' = foundTreasureCount s"
    by (simp add: s' enterLocation_count)
  have inv: "(Some location \<in> set (treasureLocations s) \<longrightarrow>
                 foundTreasureCount s' = foundTreasureCount s + 1)
              \<and> (\<forall>later. foundTreasureCount (enterLocations s' (later @ [location]))
                           = foundTreasureCount (enterLocations s' later))
              \<and> placed_apart s'" if apart: "placed_apart s"
  proof -
    have monster: "Some location \<in> set (treasureLocations s) \<Longrightarrow> location \<noteq> monsterLocation s"
      using apart by (auto simp: placed_apart_def set_present)
    from enterLocation_placed_apart[OF apart, of location]
    have inv': "placed_apart s'" and gone: "location \<notin> set (present (treasureLocations s'))"
      by (simp_all add: s')
    have again: "foundTreasureCount (enterLocations s' (later @ [location]))
        = foundTreasureCount (enterLocations s' later)" for later
      using enterLocations_absent[OF inv' gone, of later]
      by (simp add: enterLocations_append enterLocation_count set_present)
    show ?thesis
      using monster inv' again by (auto simp: s' enterLocation_count)
  qed
  have init: "\<forall>rnd k s0 k0. initGame rnd k s0 = Some (s, k0) \<longrightarrow> placed_apart s"
    by (blast intro: initGame_placed_apart)
  from mono same inv init show ?thesis by blast
qed

theorem enterLocation_foundCount_witness:
  "initGame cycling_draws 0 globals = Some (start_state, 16)
   \<and> placed_apart start_state
   \<and> Some (toPoint 1 2) \<in> set (treasureLocations start_state)
   \<and> enterLocation start_state (toPoint 1 2) =
       (True,
        [''\<newline>You are now in location (1, 2)'', ''You found the coin!'',
         ''You have 5 more treasures to find!'', ''You can hear a growling sound nearby!''],
        found_state)
   \<and> foundTreasureCount start_state = 0
   \<and> foundTreasureCount found_state = 1
   \<and> foundTreasureCount (enterLocations found_state ([toPoint 1 1] @ [toPoint 1 2]))
       = foundTreasureCount (enterLocations found_state [toPoint 1 1])
   \<and> placed_apart found_state"
proof -
  from enterLocation_foundCount[OF enterLocation_start] start_facts(1,6)
  have "foundTreasureCount found_state = foundTreasureCount start_state + 1"
    "foundTreasureCount (enterLocations found_state ([toPoint 1 1] @ [toPoint 1 2]))
       = foundTreasureCount (enterLocations found_state [toPoint 1 1])"
    "placed_apart found_state"
    by blast+
  with initGame_cycling start_facts enterLocation_start show ?thesis
    by simp
qed

text \<open>
  C7: \<open>enterLocation\<close> leaves the monster, the grid size and the names alone and sets
  the player's location; the state it returns is the old one with the new player
  location and, when a treasure is found, with that one entry cleared and the count
  raised by 1. Nothing else changes.
\<close>

theorem enterLocation_frame:
  assumes "enterLocation s location = (continue, out, s')"
  shows "monsterLocation s' = monsterLocation s
         \<and> GRID_SIZE s' = GRID_SIZE s
         \<and> treasures s' = treasures s
         \<and> playerLocation s' = location
         \<and> (s' = s\<lparr>playerLocation := location\<rparr>
            \<or> (\<exists>i. i < length (treasureLocations s)
                  \<and> treasureLocations s ! i = Some location
                  \<and> s' = s\<lparr>playerLocation := location,
                           treasureLocations := (treasureLocations s)[i := None],
                           foundTreasureCount := foundTreasureCount s + 1\<rparr>))"
proof -
  have s': "s' = snd (snd (enterLocation s location))" using assms by simp
  show ?thesis
    unfolding s' enterLocation_state
    by (auto split: option.splits dest: findPoint_Some)
qed

theorem enterLocation_frame_witness:
  "enterLocation start_state (toPoint 1 2) =
     (True,
      [''\<newline>You are now in location (1, 2)'', ''You found the coin!'',
       ''You have 5 more treasures to find!'', ''You can hear a growling sound nearby!''],
      found_state)
   \<and> monsterLocation found_state = monsterLocation start_state
   \<and> GRID_SIZE found_state = GRID_SIZE start_state
   \<and> treasures found_state = treasures start_state
   \<and> playerLocation found_state = toPoint 1 2
   \<and> found_state = start_state\<lparr>playerLocation := toPoint 1 2,
         treasureLocations := (treasureLocations start_state)[3 := None],
         foundTreasureCount := foundTreasureCount start_state + 1\<rparr>"
proof -
  from enterLocation_frame[OF enterLocation_start]
  have "monsterLocation found_state = monsterLocation start_state"
    "GRID_SIZE found_state = GRID_SIZE start_state"
    "treasures found_state = treasures start_state"
    "playerLocation found_state = toPoint 1 2" by blast+
  moreover have "found_state = start_state\<lparr>playerLocation := toPoint 1 2,
         treasureLocations := (treasureLocations start_state)[3 := None],
         foundTreasureCount := foundTreasureCount start_state + 1\<rparr>"
    by code_simp
  ultimately show ?thesis using enterLocation_start by simp
qed

text \<open>
  C8: \<open>isAdjacent p1 p2\<close> holds exactly when the two points differ by at most 1 on each
  axis; hence it is symmetric, and every point is adjacent to itself.
\<close>

theorem isAdjacent_chebyshev:
  "(isAdjacent p1 p2 \<longleftrightarrow> \<bar>x p1 - x p2\<bar> \<le> 1 \<and> \<bar>y p1 - y p2\<bar> \<le> 1)
   \<and> isAdjacent p1 p2 = isAdjacent p2 p1
   \<and> isAdjacent p p"
  by (auto simp: isAdjacent_def)




text \<open>
  C10: \<open>processCommand\<close> keeps a player who is on the board on the board. The guards
  of the four moves do that: \<open>enterLocation\<close> puts the player wherever it is told.
\<close>

theorem processCommand_in_grid:
  assumes "in_grid (GRID_SIZE s) (playerLocation s)"
    and "processCommand s command = (continue, out, s')"
  shows "in_grid (GRID_SIZE s') (playerLocation s')
         \<and> GRID_SIZE s' = GRID_SIZE s
         \<and> (\<forall>l. playerLocation (snd (snd (enterLocation s l))) = l)"
proof -
  have s': "s' = snd (snd (processCommand s command))" using assms(2) by simp
  from processCommand_cases[of s command] assms(1)
  have "in_grid (GRID_SIZE s') (playerLocation s') \<and> GRID_SIZE s' = GRID_SIZE s"
    unfolding s'
    by (auto simp: in_grid_def enterLocation_player enterLocation_GRID_SIZE toPoint_def)
  then show ?thesis by (auto simp: enterLocation_player)
qed

theorem processCommand_in_grid_witness:
  "in_grid (GRID_SIZE start_state) (playerLocation start_state)
   \<and> processCommand start_state ''d'' =
       (True,
        [''\<newline>You are now in location (1, 2)'', ''You found the coin!'',
         ''You have 5 more treasures to find!'', ''You can hear a growling sound nearby!''],
        found_state)
   \<and> in_grid (GRID_SIZE found_state) (playerLocation found_state)
   \<and> playerLocation (snd (snd (enterLocation start_state (toPoint 9 0)))) = toPoint 9 0
   \<and> \<not> in_grid (GRID_SIZE start_state) (toPoint 9 0)"
proof -
  have g: "in_grid (GRID_SIZE start_state) (playerLocation start_state)"
    using start_facts(4,5) by simp
  have run: "processCommand start_state ''d'' =
       (True,
        [''\<newline>You are now in location (1, 2)'', ''You found the coin!'',
         ''You have 5 more treasures to find!'', ''You can hear a growling sound nearby!''],
        found_state)"
    using processCommand_start enterLocation_start by simp
  have out: "\<not> in_grid (GRID_SIZE start_state) (toPoint 9 0)" by code_simp
  from processCommand_in_grid[OF g run]
  have "in_grid (GRID_SIZE found_state) (playerLocation found_state)"
    "playerLocation (snd (snd (enterLocation start_state (toPoint 9 0)))) = toPoint 9 0"
    by blast+
  with g run out show ?thesis by simp
qed

end
